theory Spec2Isabelle
  imports Main
begin

section \<open>Python values used by \<^verbatim>\<open>scripts/ci_setup.py\<close>\<close>

text \<open>
  A Python \<^verbatim>\<open>str\<close> is a \<^typ>\<open>string\<close> holding the text's UTF-8 bytes, and a
  \<^verbatim>\<open>bytes\<close> object is a \<^typ>\<open>string\<close> as well. The script only searches for and
  inserts ASCII characters, which on UTF-8 bytes is what Python does on code points.
\<close>

datatype error =
    ValueError string
  | TypeError string
  | UnicodeDecodeError
  | ArgumentError
  | SystemExit
  | Raised string

text \<open>
  \<open>ValueError\<close> and \<open>TypeError\<close> are the two \<^verbatim>\<open>raise\<close> statements of the script,
  \<open>UnicodeDecodeError\<close> is what \<^verbatim>\<open>bytes.decode\<close> raises, \<open>ArgumentError\<close> is what
  \<^verbatim>\<open>argparse\<close> raises when an option string is declared twice, \<open>SystemExit\<close> is how
  it ends the process on a bad command line, and \<open>Raised x\<close> is an exception \<open>x\<close> that
  came out of a collaborator (another module of the repository, a sub-process, the file
  system).
\<close>

definition startswith :: "string \<Rightarrow> string \<Rightarrow> bool" where
  "startswith s p = (take (length p) s = p)"

definition replace_char :: "char \<Rightarrow> char \<Rightarrow> string \<Rightarrow> string" where
  "replace_char old new s = map (\<lambda>c. if c = old then new else c) s"

fun str_join :: "string \<Rightarrow> string list \<Rightarrow> string" where
  "str_join sep [] = []"
| "str_join sep [x] = x"
| "str_join sep (x # y # ys) = x @ sep @ str_join sep (y # ys)"

text \<open>
  \<^verbatim>\<open>bytes.splitlines()\<close>: lines end at \<^verbatim>\<open>\n\<close>, \<^verbatim>\<open>\r\<close> or \<^verbatim>\<open>\r\n\<close>, the line
  ends are dropped, and a final line end opens no further line.
\<close>

fun splitlines_from :: "string \<Rightarrow> string \<Rightarrow> string list" where
  "splitlines_from cur [] = (if cur = [] then [] else [cur])"
| "splitlines_from cur (c # cs) =
     (if c = CHR 0x0D then
        (case cs of
           d # ds \<Rightarrow>
             if d = CHR 0x0A then cur # splitlines_from [] ds
             else cur # splitlines_from [] (d # ds)
         | [] \<Rightarrow> [cur])
      else if c = CHR 0x0A then cur # splitlines_from [] cs
      else splitlines_from (cur @ [c]) cs)"

definition splitlines :: "string \<Rightarrow> string list" where
  "splitlines bs = splitlines_from [] bs"

text \<open>
  \<^verbatim>\<open>bytes.decode('utf-8')\<close> (strict): the text of well-formed UTF-8, an error
  otherwise. With text held as its UTF-8 bytes the decoded value is the input.
\<close>

definition byte_in :: "nat \<Rightarrow> nat \<Rightarrow> char \<Rightarrow> bool" where
  "byte_in lo hi c = (lo \<le> (of_char c :: nat) \<and> (of_char c :: nat) \<le> hi)"

fun utf8_valid :: "string \<Rightarrow> bool" where
  "utf8_valid [] = True"
| "utf8_valid (b # bs) =
     (if byte_in 0x00 0x7F b then utf8_valid bs
      else if byte_in 0xC2 0xDF b then
        (case bs of
           c1 # r \<Rightarrow> byte_in 0x80 0xBF c1 \<and> utf8_valid r
         | _ \<Rightarrow> False)
      else if byte_in 0xE0 0xEF b then
        (case bs of
           c1 # c2 # r \<Rightarrow>
             byte_in (if b = CHR 0xE0 then 0xA0 else 0x80)
                     (if b = CHR 0xED then 0x9F else 0xBF) c1
             \<and> byte_in 0x80 0xBF c2 \<and> utf8_valid r
         | _ \<Rightarrow> False)
      else if byte_in 0xF0 0xF4 b then
        (case bs of
           c1 # c2 # c3 # r \<Rightarrow>
             byte_in (if b = CHR 0xF0 then 0x90 else 0x80)
                     (if b = CHR 0xF4 then 0x8F else 0xBF) c1
             \<and> byte_in 0x80 0xBF c2 \<and> byte_in 0x80 0xBF c3 \<and> utf8_valid r
         | _ \<Rightarrow> False)
      else False)"

definition decode_utf8 :: "string \<Rightarrow> error + string" where
  "decode_utf8 bs = (if utf8_valid bs then Inr bs else Inl UnicodeDecodeError)"

section \<open>Runs: a result and the effects that led to it\<close>

text \<open>
  The script is sequential glue around collaborators. A run is modelled by its result
  (an error, or a value) and the list of effects it had, in order. The collaborators
  are parameters of the model (record \<open>env\<close> below); a call to the \<^verbatim>\<open>dotnet\<close>
  module, to a sub-process or to the file system is an event of the run, a lookup in
  the framework registry (\<^verbatim>\<open>micro_benchmarks.FrameworkAction\<close>) is not.
\<close>

datatype ('v, 'c) event =
    Install string "string list" 'v bool
  | Info bool
  | CheckOutput string "string list"
  | GetRepository string
  | GetDotnetVersion string 'c
  | GetDotnetSdk string 'c
  | GetCommitDate string string "string option"
  | RemoveDotnet string
  | LogInfo string
  | OpenWrite string
  | FileWrite string string

type_synonym ('v, 'c, 'a) run = "(error + 'a) \<times> ('v, 'c) event list"

definition ret :: "'a \<Rightarrow> ('v, 'c, 'a) run" where
  "ret x = (Inr x, [])"

definition throw :: "error \<Rightarrow> ('v, 'c, 'a) run" where
  "throw e = (Inl e, [])"

definition then_run :: "('v, 'c, 'a) run \<Rightarrow> ('a \<Rightarrow> ('v, 'c, 'b) run) \<Rightarrow> ('v, 'c, 'b) run" where
  "then_run m f =
     (case m of
        (Inl e, t) \<Rightarrow> (Inl e, t)
      | (Inr x, t) \<Rightarrow> (case f x of (r, t') \<Rightarrow> (r, t @ t')))"

definition raised :: "string + 'a \<Rightarrow> error + 'a" where
  "raised r = (case r of Inl x \<Rightarrow> Inl (Raised x) | Inr v \<Rightarrow> Inr v)"

definition lift :: "error + 'a \<Rightarrow> ('v, 'c, 'a) run" where
  "lift r = (r, [])"

definition lookup :: "string + 'a \<Rightarrow> ('v, 'c, 'a) run" where
  "lookup r = (raised r, [])"

definition call :: "('v, 'c) event \<Rightarrow> string + 'a \<Rightarrow> ('v, 'c, 'a) run" where
  "call ev r = (raised r, [ev])"

definition emit :: "('v, 'c) event \<Rightarrow> ('v, 'c, unit) run" where
  "emit ev = (Inr (), [ev])"

text \<open>
  The files a list of events leaves behind: \<^verbatim>\<open>open(path, 'w')\<close> truncates, each
  \<^verbatim>\<open>write\<close> appends its text. A file is kept as the list of texts written to it
  since it was last opened; its content is their concatenation.
\<close>

fun replay :: "('v, 'c) event list \<Rightarrow> (string \<rightharpoonup> string list) \<Rightarrow> (string \<rightharpoonup> string list)" where
  "replay [] fs = fs"
| "replay (OpenWrite p # es) fs = replay es (fs(p \<mapsto> []))"
| "replay (FileWrite p c # es) fs =
     replay es (fs(p \<mapsto> (case fs p of None \<Rightarrow> [] | Some cs \<Rightarrow> cs) @ [c]))"
| "replay (_ # es) fs = replay es fs"

section \<open>The declared command line\<close>

text \<open>
  An \<^verbatim>\<open>argparse\<close> parser is the list of the arguments declared on it, in the order
  of their declaration. Of \<^verbatim>\<open>add_argument\<close>'s keywords the model keeps the option
  strings, \<^verbatim>\<open>dest\<close>, \<^verbatim>\<open>default\<close>, \<^verbatim>\<open>action\<close>, \<^verbatim>\<open>nargs\<close> (\<open>Unset\<close> when the
  keyword is not given, \<open>Plus\<close> for \<^verbatim>\<open>'+'\<close>) and \<^verbatim>\<open>required\<close> (\<^verbatim>\<open>type=str\<close> leaves a
  string as it is; \<^verbatim>\<open>help\<close> is text).
\<close>

datatype arg_value = NoneV | StrV string | BoolV bool | ListV "string list"

datatype arg_action = Store | StoreTrue

datatype arg_nargs = Unset | Plus

record argument =
  option_strings :: "string list"
  dest :: string
  default_value :: arg_value
  action :: arg_action
  nargs :: arg_nargs
  required :: bool

type_synonym parser = "argument list"

datatype pyobj = ArgumentParser parser | OtherObject

type_synonym namespace = "string \<rightharpoonup> arg_value"

definition bind_result :: "error + 'a \<Rightarrow> ('a \<Rightarrow> error + 'b) \<Rightarrow> error + 'b" where
  "bind_result r f = (case r of Inl e \<Rightarrow> Inl e | Inr x \<Rightarrow> f x)"

text \<open>\<^verbatim>\<open>parser.add_argument\<close>: an option string that is already declared is a conflict.\<close>

definition add_argument :: "parser \<Rightarrow> argument \<Rightarrow> error + parser" where
  "add_argument p x =
     (if \<exists>s \<in> set (option_strings x). \<exists>y \<in> set p. s \<in> set (option_strings y)
      then Inl ArgumentError else Inr (p @ [x]))"

fun add_argument_list :: "parser \<Rightarrow> argument list \<Rightarrow> error + parser" where
  "add_argument_list p [] = Inr p"
| "add_argument_list p (x # xs) = bind_result (add_argument p x) (\<lambda>p'. add_argument_list p' xs)"

text \<open>
  \<^verbatim>\<open>parse_args\<close>, on a command line given as the options that occur on it, each with
  the argument strings that follow it (how \<^verbatim>\<open>argparse\<close> cuts the tokens into options
  and arguments is not modelled). With \<^verbatim>\<open>allow_abbrev=False\<close> an option is found by
  its exact option string. The namespace starts from the declared defaults, the first
  declaration of a \<^verbatim>\<open>dest\<close> giving its default; each occurrence then runs its action.
\<close>

fun set_defaults :: "parser \<Rightarrow> namespace \<Rightarrow> namespace" where
  "set_defaults [] ns = ns"
| "set_defaults (x # xs) ns =
     set_defaults xs (if ns (dest x) = None then ns(dest x \<mapsto> default_value x) else ns)"

definition take_action :: "argument \<Rightarrow> string list \<Rightarrow> namespace \<Rightarrow> error + namespace" where
  "take_action x vals ns =
     (case action x of
        StoreTrue \<Rightarrow> if vals = [] then Inr (ns(dest x \<mapsto> BoolV True)) else Inl SystemExit
      | Store \<Rightarrow>
          (case nargs x of
             Unset \<Rightarrow>
               (case vals of
                  [v] \<Rightarrow> Inr (ns(dest x \<mapsto> StrV v))
                | _ \<Rightarrow> Inl SystemExit)
           | Plus \<Rightarrow>
               if vals = [] then Inl SystemExit else Inr (ns(dest x \<mapsto> ListV vals))))"

fun consume :: "parser \<Rightarrow> (string \<times> string list) list \<Rightarrow> namespace \<Rightarrow> error + namespace" where
  "consume p [] ns = Inr ns"
| "consume p ((opt, vals) # rest) ns =
     (case find (\<lambda>x. opt \<in> set (option_strings x)) p of
        None \<Rightarrow> Inl SystemExit
      | Some x \<Rightarrow> bind_result (take_action x vals ns) (consume p rest))"

definition parse_args :: "parser \<Rightarrow> (string \<times> string list) list \<Rightarrow> error + namespace" where
  "parse_args p cmdline =
     (if \<exists>x \<in> set p. required x \<and> (\<forall>oc \<in> set cmdline. fst oc \<notin> set (option_strings x))
      then Inl SystemExit
      else consume p cmdline (set_defaults p Map.empty))"

section \<open>Arguments and collaborators\<close>

text \<open>
  The namespace \<^verbatim>\<open>__process_arguments\<close> returns. \<^verbatim>\<open>architecture\<close>,
  \<^verbatim>\<open>dotnet_versions\<close>, \<^verbatim>\<open>frameworks\<close> and \<^verbatim>\<open>cli\<close> are declared by the
  collaborators; the last three are only handed back to them, so their types are left
  open. \<^verbatim>\<open>locale\<close> is the field \<open>locale_arg\<close>.
\<close>

record ('f, 'v, 'c) args =
  branch :: "string option"
  commit_sha :: "string option"
  repository :: "string option"
  queue :: string
  build_number :: string
  locale_arg :: string
  perf_hash :: string
  get_perf_hash :: bool
  output_file :: string
  quiet :: bool
  build_configs :: "string list"
  architecture :: string
  dotnet_versions :: 'v
  frameworks :: 'f
  cli :: 'c

text \<open>
  What the script takes from its surroundings: \<^verbatim>\<open>sys.platform\<close>, \<^verbatim>\<open>os.path.join\<close>,
  the path helpers of \<^verbatim>\<open>performance.common\<close>, the arguments the collaborators declare
  on a parser, the registry of \<^verbatim>\<open>micro_benchmarks.FrameworkAction\<close>, the module
  \<^verbatim>\<open>dotnet\<close>, \<^verbatim>\<open>subprocess.check_output\<close> (by working directory and command) and
  \<^verbatim>\<open>open(path, 'w')\<close>. Every call may raise: \<open>Inl x\<close> is the exception.
\<close>

record ('f, 'v, 'c) env =
  platform :: string
  path_join :: "string \<Rightarrow> string \<Rightarrow> string"
  get_tools_directory :: string
  get_repo_root_path :: string
  dotnet_add_arguments :: "parser \<Rightarrow> string + parser"
  micro_benchmarks_add_arguments :: "parser \<Rightarrow> string + parser"
  get_channel :: "string \<Rightarrow> string + string"
  get_target_framework_monikers :: "'f \<Rightarrow> string + string list"
  get_target_framework_moniker :: "string \<Rightarrow> string + string"
  get_branch :: "string \<Rightarrow> string + string"
  dotnet_install :: "string \<Rightarrow> string list \<Rightarrow> 'v \<Rightarrow> bool \<Rightarrow> string + unit"
  dotnet_info :: "bool \<Rightarrow> string + unit"
  get_repository :: "string \<Rightarrow> string + (string \<times> string)"
  get_dotnet_version :: "string \<Rightarrow> 'c \<Rightarrow> string + string"
  get_dotnet_sdk :: "string \<Rightarrow> 'c \<Rightarrow> string + string"
  get_commit_date :: "string \<Rightarrow> string \<Rightarrow> string option \<Rightarrow> string + string"
  remove_dotnet :: "string \<Rightarrow> string + unit"
  check_output :: "string \<Rightarrow> string list \<Rightarrow> string + string"
  open_w :: "string \<Rightarrow> string + unit"

section \<open>The script\<close>

definition global_extension :: "string \<Rightarrow> string" where
  "global_extension plat = (if plat = ''win32'' then ''.cmd'' else ''.sh'')"

text \<open>
  The eleven declarations of \<^verbatim>\<open>add_arguments\<close>, in its order. \<^verbatim>\<open>-q/--quiet\<close> has
  no \<^verbatim>\<open>dest\<close> keyword: \<^verbatim>\<open>argparse\<close> takes it from the first long option string.
\<close>

definition own_arguments :: "('f, 'v, 'c) env \<Rightarrow> argument list" where
  "own_arguments e =
     [\<lparr>option_strings = [''--branch''], dest = ''branch'', default_value = NoneV,
       action = Store, nargs = Unset, required = False\<rparr>,
      \<lparr>option_strings = [''--commit-sha''], dest = ''commit_sha'', default_value = NoneV,
       action = Store, nargs = Unset, required = False\<rparr>,
      \<lparr>option_strings = [''--repository''], dest = ''repository'', default_value = NoneV,
       action = Store, nargs = Unset, required = False\<rparr>,
      \<lparr>option_strings = [''--queue''], dest = ''queue'', default_value = StrV ''testQueue'',
       action = Store, nargs = Unset, required = False\<rparr>,
      \<lparr>option_strings = [''--build-number''], dest = ''build_number'',
       default_value = StrV ''1234.1'', action = Store, nargs = Unset, required = False\<rparr>,
      \<lparr>option_strings = [''--locale''], dest = ''locale'', default_value = StrV ''en-US'',
       action = Store, nargs = Unset, required = False\<rparr>,
      \<lparr>option_strings = [''--perf-hash''], dest = ''perf_hash'',
       default_value = StrV ''testSha'', action = Store, nargs = Unset, required = False\<rparr>,
      \<lparr>option_strings = [''--get-perf-hash''], dest = ''get_perf_hash'',
       default_value = BoolV False, action = StoreTrue, nargs = Unset, required = False\<rparr>,
      \<lparr>option_strings = [''--output-file''], dest = ''output_file'',
       default_value =
         StrV (path_join e (get_tools_directory e)
                 (''machine-setup'' @ global_extension (platform e))),
       action = Store, nargs = Unset, required = False\<rparr>,
      \<lparr>option_strings = [''-q'', ''--quiet''], dest = ''quiet'', default_value = BoolV False,
       action = StoreTrue, nargs = Unset, required = False\<rparr>,
      \<lparr>option_strings = [''--build-configs''], dest = ''build_configs'',
       default_value = ListV [], action = Store, nargs = Plus, required = False\<rparr>]"

definition add_arguments :: "('f, 'v, 'c) env \<Rightarrow> pyobj \<Rightarrow> error + pyobj" where
  "add_arguments e obj =
     (case obj of
        OtherObject \<Rightarrow> Inl (TypeError ''Invalid parser.'')
      | ArgumentParser p \<Rightarrow>
          bind_result (raised (dotnet_add_arguments e p)) (\<lambda>p1.
          bind_result (raised (micro_benchmarks_add_arguments e p1)) (\<lambda>p2.
          bind_result (add_argument_list p2 (own_arguments e)) (\<lambda>p3.
          Inr (ArgumentParser p3)))))"

definition process_arguments ::
  "('f, 'v, 'c) env \<Rightarrow> (string \<times> string list) list \<Rightarrow> error + namespace" where
  "process_arguments e cmdline =
     bind_result (add_arguments e (ArgumentParser [])) (\<lambda>obj.
       case obj of
         ArgumentParser p \<Rightarrow> parse_args p cmdline
       | OtherObject \<Rightarrow> Inl (TypeError ''Invalid parser.''))"

fun get_channels :: "('f, 'v, 'c) env \<Rightarrow> string list \<Rightarrow> ('v, 'c, string list) run" where
  "get_channels e [] = ret []"
| "get_channels e (t # ts) =
     then_run (lookup (get_channel e t)) (\<lambda>c.
     then_run (get_channels e ts) (\<lambda>cs.
     ret (c # cs)))"

definition init_tools ::
  "('f, 'v, 'c) env \<Rightarrow> string \<Rightarrow> 'v \<Rightarrow> string list \<Rightarrow> bool \<Rightarrow> ('v, 'c, unit) run" where
  "init_tools e arch versions target_framework_monikers verbose =
     then_run (emit (LogInfo ''Installing tools.'')) (\<lambda>_.
     then_run (get_channels e target_framework_monikers) (\<lambda>channels.
     call (Install arch channels versions verbose)
          (dotnet_install e arch channels versions verbose)))"

text \<open>\<^verbatim>\<open>'set %s=%s\n'\<close> on \<^verbatim>\<open>win32\<close>, \<^verbatim>\<open>'export %s=%s\n'\<close> elsewhere.\<close>

definition variable_format :: "string \<Rightarrow> string \<Rightarrow> string \<Rightarrow> string" where
  "variable_format plat name val =
     (if plat = ''win32'' then ''set '' @ name @ ''='' @ val @ [CHR 0x0A]
      else ''export '' @ name @ ''='' @ val @ [CHR 0x0A])"

definition config_string_of :: "string \<Rightarrow> string list \<Rightarrow> string" where
  "config_string_of plat configs =
     (if plat = ''win32'' then str_join '';'' configs
      else [CHR 0x22] @ str_join '';'' configs @ [CHR 0x22])"

fun decode_lines :: "string list \<Rightarrow> string list \<Rightarrow> error + string list" where
  "decode_lines decoded [] = Inr decoded"
| "decode_lines decoded (line # lines) =
     (case decode_utf8 line of
        Inl e \<Rightarrow> Inl e
      | Inr s \<Rightarrow> decode_lines (decoded @ [s]) lines)"

definition open_write :: "('f, 'v, 'c) env \<Rightarrow> string \<Rightarrow> ('v, 'c, unit) run" where
  "open_write e path =
     (case open_w e path of
        Inl x \<Rightarrow> throw (Raised x)
      | Inr _ \<Rightarrow> emit (OpenWrite path))"

fun write_all :: "string \<Rightarrow> string list \<Rightarrow> ('v, 'c, unit) run" where
  "write_all path [] = ret ()"
| "write_all path (c # cs) = then_run (emit (FileWrite path c)) (\<lambda>_. write_all path cs)"

text \<open>The values \<^verbatim>\<open>__main\<close> computes before its loop and reads inside it.\<close>

record locals =
  owner :: string
  repo :: string
  config_string :: string
  perfHash :: string
  repo_url :: "string option"

text \<open>
  One pass of the loop over \<^verbatim>\<open>target_framework_monikers\<close>; the result is the
  flag \<^verbatim>\<open>remove_dotnet\<close> after the pass.
\<close>

definition loop_body ::
  "('f, 'v, 'c) env \<Rightarrow> ('f, 'v, 'c) args \<Rightarrow> locals \<Rightarrow> string \<Rightarrow> bool \<Rightarrow> ('v, 'c, bool) run" where
  "loop_body e a l framework rd =
     (let fmt = variable_format (platform e) in
      if startswith framework ''netcoreapp'' then
        (let rd' = (if framework = ''netcoreapp3.0'' \<or> framework = ''netcoreapp5.0''
                    then True else rd) in
         then_run (lookup (get_target_framework_moniker e framework)) (\<lambda>tfm.
         then_run (call (GetDotnetVersion tfm (cli a)) (get_dotnet_version e tfm (cli a)))
           (\<lambda>dotnet_version.
         then_run (case commit_sha a of
                     None \<Rightarrow> call (GetDotnetSdk tfm (cli a)) (get_dotnet_sdk e tfm (cli a))
                   | Some sha \<Rightarrow> ret sha) (\<lambda>sha.
         then_run (call (GetCommitDate tfm sha (repo_url l))
                        (get_commit_date e tfm sha (repo_url l))) (\<lambda>source_timestamp.
         then_run (case branch a of
                     None \<Rightarrow> lookup (get_branch e tfm)
                   | Some b \<Rightarrow> if b = [] then lookup (get_branch e tfm) else ret b)
           (\<lambda>br.
         then_run (emit (LogInfo (''Writing script to '' @ output_file a))) (\<lambda>_.
         then_run (open_write e (output_file a)) (\<lambda>_.
         then_run (write_all (output_file a)
           [fmt ''PERFLAB_INLAB'' ''1'',
            fmt ''PERFLAB_REPO'' (str_join ''/'' [owner l, repo l]),
            fmt ''PERFLAB_BRANCH'' br,
            fmt ''PERFLAB_PERFHASH'' (perfHash l),
            fmt ''PERFLAB_HASH'' sha,
            fmt ''PERFLAB_QUEUE'' (queue a),
            fmt ''PERFLAB_BUILDNUM'' (build_number a),
            fmt ''PERFLAB_BUILDARCH'' (architecture a),
            fmt ''PERFLAB_LOCALE'' (locale_arg a),
            fmt ''PERFLAB_BUILDTIMESTAMP'' source_timestamp,
            fmt ''PERFLAB_CONFIGS'' (config_string l),
            fmt ''DOTNET_VERSION'' dotnet_version,
            fmt ''PERFLAB_TARGET_FRAMEWORKS'' framework]) (\<lambda>_.
         ret rd')))))))))
      else
        then_run (open_write e (output_file a)) (\<lambda>_.
        then_run (write_all (output_file a)
          [fmt ''PERFLAB_INLAB'' ''0'',
           fmt ''PERFLAB_TARGET_FRAMEWORKS'' framework]) (\<lambda>_.
        ret rd)))"

fun emit_loop ::
  "('f, 'v, 'c) env \<Rightarrow> ('f, 'v, 'c) args \<Rightarrow> locals \<Rightarrow> string list \<Rightarrow> bool \<Rightarrow> ('v, 'c, bool) run" where
  "emit_loop e a l [] rd = ret rd"
| "emit_loop e a l (framework # rest) rd =
     then_run (loop_body e a l framework rd) (\<lambda>rd'. emit_loop e a l rest rd')"

text \<open>
  \<^verbatim>\<open>__main\<close> from the parsed namespace on (line 165 of the script; the runtime
  check, the parsing and the logger set-up precede it).
\<close>

definition main :: "('f, 'v, 'c) env \<Rightarrow> ('f, 'v, 'c) args \<Rightarrow> ('v, 'c, unit) run" where
  "main e a =
     (let verbose = \<not> quiet a in
      if \<not> ((commit_sha a = None) = (repository a = None)) then
        throw (ValueError ''Either both commit_sha and repository should be set or neither'')
      else
        then_run (lookup (get_target_framework_monikers e (frameworks a)))
          (\<lambda>target_framework_monikers.
        let arch = (if architecture a = ''arm64'' then ''x64'' else architecture a) in
        then_run (init_tools e arch (dotnet_versions a) target_framework_monikers verbose) (\<lambda>_.
        then_run (call (Info verbose) (dotnet_info e verbose)) (\<lambda>_.
        let url = map_option (replace_char CHR ''-'' CHR ''/'') (repository a) in
        then_run (case url of
                    None \<Rightarrow> ret (''dotnet'', ''core-sdk'')
                  | Some u \<Rightarrow> call (GetRepository u) (get_repository e u)) (\<lambda>(ow, rp).
        let cfg = config_string_of (platform e) (build_configs a) in
        then_run (call (CheckOutput (get_repo_root_path e) [''git'', ''rev-parse'', ''HEAD''])
                       (check_output e (get_repo_root_path e) [''git'', ''rev-parse'', ''HEAD'']))
          (\<lambda>output.
        then_run (lift (decode_lines [] (splitlines output))) (\<lambda>decoded_lines.
        let decoded_output = concat decoded_lines;
            ph = (if get_perf_hash a then decoded_output else perf_hash a);
            l = \<lparr>owner = ow, repo = rp, config_string = cfg, perfHash = ph, repo_url = url\<rparr>
        in
        then_run (emit_loop e a l target_framework_monikers False) (\<lambda>rd.
        if platform e \<noteq> ''win32'' \<and> rd then call (RemoveDotnet arch) (remove_dotnet e arch)
        else ret ()))))))))"

section \<open>Example surroundings and arguments\<close>

text \<open>\<^verbatim>\<open>posixpath.join\<close> of two paths.\<close>

definition posix_join :: "string \<Rightarrow> string \<Rightarrow> string" where
  "posix_join a b =
     (if startswith b ''/'' then b
      else if a = [] \<or> last a = CHR ''/'' then a @ b
      else a @ ''/'' @ b)"

text \<open>
  A Linux host on which every collaborator succeeds, the collaborators declaring
  \<^verbatim>\<open>--architecture\<close> and \<^verbatim>\<open>-f/--frameworks\<close>; the same host reporting \<^verbatim>\<open>win32\<close>;
  and the namespace of a command line that names one framework.
\<close>

definition posix_env :: "(string list, string list, string) env" where
  "posix_env =
     \<lparr>platform = ''linux'',
      path_join = posix_join,
      get_tools_directory = ''/repo/tools'',
      get_repo_root_path = ''/repo'',
      dotnet_add_arguments = (\<lambda>p. Inr (p @
        [\<lparr>option_strings = [''--architecture''], dest = ''architecture'',
          default_value = StrV ''x64'', action = Store, nargs = Unset, required = False\<rparr>])),
      micro_benchmarks_add_arguments = (\<lambda>p. Inr (p @
        [\<lparr>option_strings = [''-f'', ''--frameworks''], dest = ''frameworks'',
          default_value = NoneV, action = Store, nargs = Plus, required = False\<rparr>])),
      get_channel = (\<lambda>t. Inr ''master''),
      get_target_framework_monikers = (\<lambda>f. Inr f),
      get_target_framework_moniker = (\<lambda>f. Inr f),
      get_branch = (\<lambda>t. Inr ''master''),
      dotnet_install = (\<lambda>arch channels versions verbose. Inr ()),
      dotnet_info = (\<lambda>verbose. Inr ()),
      get_repository = (\<lambda>u. Inr (''dotnet'', ''coreclr'')),
      get_dotnet_version = (\<lambda>t c. Inr ''5.0.100''),
      get_dotnet_sdk = (\<lambda>t c. Inr ''abc123''),
      get_commit_date = (\<lambda>t s u. Inr ''2020-01-01T00:00:00Z''),
      remove_dotnet = (\<lambda>arch. Inr ()),
      check_output = (\<lambda>cwd cmd. Inr (''0123abcd'' @ [CHR 0x0A])),
      open_w = (\<lambda>p. Inr ())\<rparr>"

definition win_env :: "(string list, string list, string) env" where
  "win_env = posix_env\<lparr>platform := ''win32''\<rparr>"

definition example_args :: "(string list, string list, string) args" where
  "example_args =
     \<lparr>branch = None, commit_sha = None, repository = None,
      queue = ''testQueue'', build_number = ''1234.1'', locale_arg = ''en-US'',
      perf_hash = ''testSha'', get_perf_hash = False,
      output_file = ''/repo/tools/machine-setup.sh'', quiet = False,
      build_configs = [], architecture = ''x64'', dotnet_versions = [],
      frameworks = [''netcoreapp5.0''], cli = ''dotnet''\<rparr>"

section \<open>The two scripts\<close>

text \<open>
  The texts the two \<^verbatim>\<open>with open(...)\<close> blocks of the loop write, in order: the block
  for a moniker that starts with \<^verbatim>\<open>netcoreapp\<close>, given the branch, commit, timestamp
  and SDK version that were resolved for it, and the block for any other moniker.
  They restate the two lists of \<open>loop_body\<close> and serve to state what a file holds.
\<close>

definition script_core ::
  "string \<Rightarrow> ('f, 'v, 'c) args \<Rightarrow> locals \<Rightarrow> string \<Rightarrow> string \<Rightarrow> string \<Rightarrow> string \<Rightarrow> string
     \<Rightarrow> string list" where
  "script_core plat a l br sha ts ver fw =
     [variable_format plat ''PERFLAB_INLAB'' ''1'',
      variable_format plat ''PERFLAB_REPO'' (owner l @ ''/'' @ repo l),
      variable_format plat ''PERFLAB_BRANCH'' br,
      variable_format plat ''PERFLAB_PERFHASH'' (perfHash l),
      variable_format plat ''PERFLAB_HASH'' sha,
      variable_format plat ''PERFLAB_QUEUE'' (queue a),
      variable_format plat ''PERFLAB_BUILDNUM'' (build_number a),
      variable_format plat ''PERFLAB_BUILDARCH'' (architecture a),
      variable_format plat ''PERFLAB_LOCALE'' (locale_arg a),
      variable_format plat ''PERFLAB_BUILDTIMESTAMP'' ts,
      variable_format plat ''PERFLAB_CONFIGS'' (config_string l),
      variable_format plat ''DOTNET_VERSION'' ver,
      variable_format plat ''PERFLAB_TARGET_FRAMEWORKS'' fw]"

definition script_other :: "string \<Rightarrow> string \<Rightarrow> string list" where
  "script_other plat fw =
     [variable_format plat ''PERFLAB_INLAB'' ''0'',
      variable_format plat ''PERFLAB_TARGET_FRAMEWORKS'' fw]"

section \<open>Reasoning about runs\<close>

lemma then_run_ret [simp]: "then_run (ret x) f = f x"
  by (simp add: then_run_def ret_def split: prod.splits)

lemma then_run_throw [simp]: "then_run (throw e) f = throw e"
  by (simp add: then_run_def throw_def)

lemma fst_then_run:
  "fst (then_run m f) = (case fst m of Inl e \<Rightarrow> Inl e | Inr x \<Rightarrow> fst (f x))"
  by (cases m) (simp add: then_run_def split: prod.splits sum.splits)

lemma snd_then_run:
  "snd (then_run m f) = (case fst m of Inl e \<Rightarrow> snd m | Inr x \<Rightarrow> snd m @ snd (f x))"
  by (cases m) (simp add: then_run_def split: prod.splits sum.splits)

lemma then_run_Inr:
  "then_run m f = (Inr y, t) \<longleftrightarrow>
     (\<exists>x t1 t2. m = (Inr x, t1) \<and> f x = (Inr y, t2) \<and> t = t1 @ t2)"
  by (cases m; cases "fst m") (auto simp: then_run_def split: prod.splits)

lemma ret_Inr [simp]: "ret x = (Inr y, t) \<longleftrightarrow> x = y \<and> t = []"
  by (auto simp: ret_def)

lemma throw_Inr [simp]: "throw e \<noteq> (Inr y, t)"
  by (simp add: throw_def)

lemma emit_Inr [simp]: "emit ev = (Inr u, t) \<longleftrightarrow> t = [ev]"
  by (auto simp: emit_def)

lemma lift_Inr [simp]: "lift r = (Inr x, t) \<longleftrightarrow> r = Inr x \<and> t = []"
  by (auto simp: lift_def)

lemma lookup_Inr [simp]: "lookup r = (Inr x, t) \<longleftrightarrow> r = Inr x \<and> t = []"
  by (auto simp: lookup_def raised_def split: sum.splits)

lemma call_Inr [simp]: "call ev r = (Inr x, t) \<longleftrightarrow> r = Inr x \<and> t = [ev]"
  by (auto simp: call_def raised_def split: sum.splits)

lemma open_write_Inr [simp]:
  "open_write e p = (Inr u, t) \<longleftrightarrow> open_w e p = Inr () \<and> t = [OpenWrite p]"
  by (auto simp: open_write_def split: sum.splits)

lemma write_all_eq: "write_all p cs = (Inr (), map (FileWrite p) cs)"
  by (induction cs) (simp_all add: ret_def then_run_def emit_def)

lemma get_channels_no_events: "snd (get_channels e ts) = []"
  by (induction ts) (simp_all add: snd_then_run ret_def lookup_def split: sum.splits)

text \<open>No step but the validation of \<open>main\<close> ends in a \<open>ValueError\<close>.\<close>

lemma then_run_no_value_error:
  assumes "fst m \<noteq> Inl (ValueError msg)" "\<And>x. fst (f x) \<noteq> Inl (ValueError msg)"
  shows "fst (then_run m f) \<noteq> Inl (ValueError msg)"
  using assms by (auto simp: fst_then_run split: sum.splits)

lemma option_case_no_value_error:
  assumes "fst n \<noteq> Inl (ValueError msg)" "\<And>x. fst (s x) \<noteq> Inl (ValueError msg)"
  shows "fst (case opt of None \<Rightarrow> n | Some x \<Rightarrow> s x) \<noteq> Inl (ValueError msg)"
  using assms by (cases opt) simp_all

lemma if_no_value_error:
  assumes "fst m \<noteq> Inl (ValueError msg)" "fst n \<noteq> Inl (ValueError msg)"
  shows "fst (if c then m else n) \<noteq> Inl (ValueError msg)"
  using assms by simp

lemma raised_no_value_error: "raised r \<noteq> Inl (ValueError msg)"
  by (simp add: raised_def split: sum.splits)

lemma steps_no_value_error [simp]:
  "fst (lookup r) \<noteq> Inl (ValueError msg)"
  "fst (call ev r) \<noteq> Inl (ValueError msg)"
  "fst (emit ev) \<noteq> Inl (ValueError msg)"
  "fst (ret x) \<noteq> Inl (ValueError msg)"
  "fst (write_all p cs) \<noteq> Inl (ValueError msg)"
  "fst (open_write e p) \<noteq> Inl (ValueError msg)"
  by (simp_all add: lookup_def call_def emit_def ret_def write_all_eq open_write_def
      throw_def raised_no_value_error split: sum.splits)

lemma decode_lines_no_value_error: "decode_lines acc ls \<noteq> Inl (ValueError msg)"
  by (induction ls arbitrary: acc) (simp_all add: decode_utf8_def)

lemma get_channels_no_value_error: "fst (get_channels e ts) \<noteq> Inl (ValueError msg)"
  by (induction ts) (simp_all add: then_run_no_value_error)

lemma init_tools_no_value_error:
  "fst (init_tools e arch v ts vb) \<noteq> Inl (ValueError msg)"
  by (simp add: init_tools_def then_run_no_value_error get_channels_no_value_error)

lemma loop_body_no_value_error: "fst (loop_body e a l fw rd) \<noteq> Inl (ValueError msg)"
  unfolding loop_body_def Let_def
  by (intro then_run_no_value_error option_case_no_value_error if_no_value_error
        steps_no_value_error)

lemma emit_loop_no_value_error: "fst (emit_loop e a l fws rd) \<noteq> Inl (ValueError msg)"
  by (induction fws arbitrary: rd)
     (simp_all add: then_run_no_value_error loop_body_no_value_error)

lemma main_no_value_error:
  assumes "(commit_sha a = None) = (repository a = None)"
  shows "fst (main e a) \<noteq> Inl (ValueError msg)"
proof -
  have lifted: "\<And>out. fst (lift (decode_lines [] (splitlines out)) :: ('b, 'c, string list) run)
      \<noteq> Inl (ValueError msg)"
    by (simp add: lift_def decode_lines_no_value_error)
  have valid: "\<not> \<not> ((commit_sha a = None) = (repository a = None))"
    using assms by simp
  show ?thesis
    unfolding main_def Let_def case_prod_beta if_not_P[OF valid]
    by (intro then_run_no_value_error option_case_no_value_error if_no_value_error
          steps_no_value_error init_tools_no_value_error emit_loop_no_value_error lifted)
qed

lemma init_tools_events:
  assumes "fst (get_channels e ts) = Inr chans"
  shows "snd (init_tools e arch v ts vb) = [LogInfo ''Installing tools.'', Install arch chans v vb]"
  using assms get_channels_no_events[of e ts]
  by (simp add: init_tools_def snd_then_run emit_def call_def)

lemma main_starts_with_install:
  assumes "(commit_sha a = None) = (repository a = None)"
    and "get_target_framework_monikers e (frameworks a) = Inr tfms"
    and "fst (get_channels e tfms) = Inr chans"
  shows "take 2 (snd (main e a)) =
     [LogInfo ''Installing tools.'',
      Install (if architecture a = ''arm64'' then ''x64'' else architecture a)
        chans (dotnet_versions a) (\<not> quiet a)]"
  using assms
  by (simp add: main_def Let_def lookup_def raised_def then_run_def[of "(Inr _, [])"]
      snd_then_run[of "init_tools _ _ _ _ _"] init_tools_events split: sum.splits)

section \<open>Validation of the arguments\<close>

text \<open>
  Claim C1. When exactly one of \<^verbatim>\<open>commit_sha\<close> and \<^verbatim>\<open>repository\<close> is set, the run
  ends in the configuration error (the \<open>ValueError\<close> of the script) and has had no
  effect at all: nothing was installed, nothing was written. When both or neither are
  set, the run never ends in a \<open>ValueError\<close>, and it goes on to the installation: once
  the monikers and their channels are looked up, its first two effects are the log
  line of \<^verbatim>\<open>init_tools\<close> and the call of the installer.
\<close>

theorem validation_of_commit_sha_and_repository:
  "(if (commit_sha a = None) = (repository a = None)
    then (\<forall>msg. fst (main e a) \<noteq> Inl (ValueError msg)) \<and>
         (\<forall>tfms chans.
            get_target_framework_monikers e (frameworks a) = Inr tfms \<and>
            fst (get_channels e tfms) = Inr chans \<longrightarrow>
            take 2 (snd (main e a)) =
              [LogInfo ''Installing tools.'',
               Install (if architecture a = ''arm64'' then ''x64'' else architecture a)
                 chans (dotnet_versions a) (\<not> quiet a)])
    else main e a =
      (Inl (ValueError ''Either both commit_sha and repository should be set or neither''),
       []))"
proof (cases "(commit_sha a = None) = (repository a = None)")
  case True
  show ?thesis
    unfolding if_P[OF True]
    using main_no_value_error[OF True] main_starts_with_install[OF True] by blast
next
  case False
  have "main e a =
      (Inl (ValueError ''Either both commit_sha and repository should be set or neither''),
       [])"
    unfolding main_def Let_def if_P[OF False] throw_def by (rule refl)
  then show ?thesis
    unfolding if_not_P[OF False] .
qed

theorem validation_of_commit_sha_and_repository_witness:
  "main posix_env (example_args\<lparr>commit_sha := Some ''0123abcd''\<rparr>) =
     (Inl (ValueError ''Either both commit_sha and repository should be set or neither''), [])
   \<and> main posix_env (example_args\<lparr>repository := Some ''https://github.com/dotnet/coreclr''\<rparr>) =
     (Inl (ValueError ''Either both commit_sha and repository should be set or neither''), [])
   \<and> fst (main posix_env example_args) \<noteq>
       Inl (ValueError ''Either both commit_sha and repository should be set or neither'')
   \<and> take 2 (snd (main posix_env example_args)) =
       [LogInfo ''Installing tools.'', Install ''x64'' [''master''] [] True]"
proof -
  have ch: "fst (get_channels posix_env [''netcoreapp5.0'']) = Inr [''master'']"
    by (simp add: posix_env_def lookup_def raised_def then_run_def ret_def)
  show ?thesis
    using validation_of_commit_sha_and_repository
            [of "example_args\<lparr>commit_sha := Some ''0123abcd''\<rparr>" posix_env]
          validation_of_commit_sha_and_repository
            [of "example_args\<lparr>repository := Some ''https://github.com/dotnet/coreclr''\<rparr>" posix_env]
          validation_of_commit_sha_and_repository [of example_args posix_env] ch
    by (simp add: example_args_def posix_env_def)
qed

section \<open>What a successful run leaves behind\<close>

lemma replay_append: "replay (xs @ ys) fs = replay ys (replay xs fs)"
  by (induction xs fs rule: replay.induct) (simp_all del: fun_upd_apply)

lemma replay_writes:
  "fs p = Some ds \<Longrightarrow> replay (map (FileWrite p) cs) fs = fs(p \<mapsto> ds @ cs)"
  by (induction cs arbitrary: fs ds) (simp_all add: map_upd_triv)

lemma replay_open_writes:
  "replay (OpenWrite p # map (FileWrite p) cs) fs = fs(p \<mapsto> cs)"
  by (simp add: replay_writes)

lemma not_core_not_legacy:
  "\<not> startswith fw ''netcoreapp'' \<Longrightarrow> fw \<noteq> ''netcoreapp3.0'' \<and> fw \<noteq> ''netcoreapp5.0''"
  by (auto simp: startswith_def)

lemma loop_body_noncore_ok:
  assumes "\<not> startswith fw ''netcoreapp''" "loop_body e a l fw rd = (Inr r, t)"
  shows "r = rd \<and> t =
     OpenWrite (output_file a) # map (FileWrite (output_file a))
       [variable_format (platform e) ''PERFLAB_INLAB'' ''0'',
        variable_format (platform e) ''PERFLAB_TARGET_FRAMEWORKS'' fw]"
  using assms
  by (auto simp: loop_body_def Let_def then_run_Inr write_all_eq)

lemma loop_body_core_ok:
  assumes "startswith fw ''netcoreapp''" "loop_body e a l fw rd = (Inr r, t)"
  shows "\<exists>tfm ver sha ts br.
     get_target_framework_moniker e fw = Inr tfm \<and>
     get_dotnet_version e tfm (cli a) = Inr ver \<and>
     (case commit_sha a of
        None \<Rightarrow> get_dotnet_sdk e tfm (cli a) = Inr sha
      | Some s \<Rightarrow> sha = s) \<and>
     get_commit_date e tfm sha (repo_url l) = Inr ts \<and>
     (if branch a = None \<or> branch a = Some [] then get_branch e tfm = Inr br
      else branch a = Some br) \<and>
     r = (if fw = ''netcoreapp3.0'' \<or> fw = ''netcoreapp5.0'' then True else rd) \<and>
     t = GetDotnetVersion tfm (cli a) #
         (case commit_sha a of None \<Rightarrow> [GetDotnetSdk tfm (cli a)] | Some s \<Rightarrow> []) @
         [GetCommitDate tfm sha (repo_url l),
          LogInfo (''Writing script to '' @ output_file a)] @
         OpenWrite (output_file a) # map (FileWrite (output_file a))
           [variable_format (platform e) ''PERFLAB_INLAB'' ''1'',
            variable_format (platform e) ''PERFLAB_REPO'' (owner l @ ''/'' @ repo l),
            variable_format (platform e) ''PERFLAB_BRANCH'' br,
            variable_format (platform e) ''PERFLAB_PERFHASH'' (perfHash l),
            variable_format (platform e) ''PERFLAB_HASH'' sha,
            variable_format (platform e) ''PERFLAB_QUEUE'' (queue a),
            variable_format (platform e) ''PERFLAB_BUILDNUM'' (build_number a),
            variable_format (platform e) ''PERFLAB_BUILDARCH'' (architecture a),
            variable_format (platform e) ''PERFLAB_LOCALE'' (locale_arg a),
            variable_format (platform e) ''PERFLAB_BUILDTIMESTAMP'' ts,
            variable_format (platform e) ''PERFLAB_CONFIGS'' (config_string l),
            variable_format (platform e) ''DOTNET_VERSION'' ver,
            variable_format (platform e) ''PERFLAB_TARGET_FRAMEWORKS'' fw]"
proof -
  from assms obtain tfm ver sha ts br t3 t5 where
    f1: "get_target_framework_moniker e fw = Inr tfm" and
    f2: "get_dotnet_version e tfm (cli a) = Inr ver" and
    f3: "(case commit_sha a of
            None \<Rightarrow> call (GetDotnetSdk tfm (cli a)) (get_dotnet_sdk e tfm (cli a))
          | Some s \<Rightarrow> ret s) = (Inr sha, t3)" and
    f4: "get_commit_date e tfm sha (repo_url l) = Inr ts" and
    f5: "(case branch a of
            None \<Rightarrow> lookup (get_branch e tfm)
          | Some b \<Rightarrow> if b = [] then lookup (get_branch e tfm) else ret b) = (Inr br, t5)" and
    f7: "r = (if fw = ''netcoreapp3.0'' \<or> fw = ''netcoreapp5.0'' then True else rd)" and
    f8: "t = GetDotnetVersion tfm (cli a) # t3 @ GetCommitDate tfm sha (repo_url l) # t5 @
         [LogInfo (''Writing script to '' @ output_file a), OpenWrite (output_file a)] @
         map (FileWrite (output_file a))
           [variable_format (platform e) ''PERFLAB_INLAB'' ''1'',
            variable_format (platform e) ''PERFLAB_REPO'' (str_join ''/'' [owner l, repo l]),
            variable_format (platform e) ''PERFLAB_BRANCH'' br,
            variable_format (platform e) ''PERFLAB_PERFHASH'' (perfHash l),
            variable_format (platform e) ''PERFLAB_HASH'' sha,
            variable_format (platform e) ''PERFLAB_QUEUE'' (queue a),
            variable_format (platform e) ''PERFLAB_BUILDNUM'' (build_number a),
            variable_format (platform e) ''PERFLAB_BUILDARCH'' (architecture a),
            variable_format (platform e) ''PERFLAB_LOCALE'' (locale_arg a),
            variable_format (platform e) ''PERFLAB_BUILDTIMESTAMP'' ts,
            variable_format (platform e) ''PERFLAB_CONFIGS'' (config_string l),
            variable_format (platform e) ''DOTNET_VERSION'' ver,
            variable_format (platform e) ''PERFLAB_TARGET_FRAMEWORKS'' fw]"
    by (simp add: loop_body_def Let_def then_run_Inr write_all_eq) blast
  from f3 have g3: "(case commit_sha a of
        None \<Rightarrow> get_dotnet_sdk e tfm (cli a) = Inr sha
      | Some s \<Rightarrow> sha = s)"
    and h3: "t3 = (case commit_sha a of None \<Rightarrow> [GetDotnetSdk tfm (cli a)] | Some s \<Rightarrow> [])"
    by (auto split: option.splits)
  from f5 have g5: "(if branch a = None \<or> branch a = Some [] then get_branch e tfm = Inr br
      else branch a = Some br)"
    and h5: "t5 = []"
    by (auto split: option.splits if_splits)
  show ?thesis
    apply (rule exI[of _ tfm], rule exI[of _ ver], rule exI[of _ sha])
    apply (rule exI[of _ ts], rule exI[of _ br])
    using f1 f2 g3 f4 g5 f7 unfolding f8 h3 h5 by simp
qed

lemma loop_body_flag:
  assumes "loop_body e a l fw rd = (Inr r, t)"
  shows "r = (rd \<or> fw = ''netcoreapp3.0'' \<or> fw = ''netcoreapp5.0'')"
proof (cases "startswith fw ''netcoreapp''")
  case True
  from loop_body_core_ok[OF True assms] show ?thesis by (auto split: if_splits)
next
  case False
  from loop_body_noncore_ok[OF False assms] not_core_not_legacy[OF False]
  show ?thesis by simp
qed

lemma emit_loop_flag:
  "emit_loop e a l fws rd = (Inr r, t) \<Longrightarrow>
   r = (rd \<or> ''netcoreapp3.0'' \<in> set fws \<or> ''netcoreapp5.0'' \<in> set fws)"
proof (induction fws arbitrary: rd t)
  case Nil
  then show ?case by simp
next
  case (Cons fw fws)
  from Cons.prems obtain rd' t1 t2 where
    b: "loop_body e a l fw rd = (Inr rd', t1)" and
    r: "emit_loop e a l fws rd' = (Inr r, t2)"
    by (auto simp: then_run_Inr)
  from loop_body_flag[OF b] Cons.IH[OF r] show ?case by auto
qed

lemma emit_loop_last:
  "emit_loop e a l fws rd = (Inr r, t) \<Longrightarrow> fws \<noteq> [] \<Longrightarrow>
   \<exists>rd' t1 t2. t = t1 @ t2 \<and> loop_body e a l (last fws) rd' = (Inr r, t2)"
proof (induction fws arbitrary: rd t)
  case Nil
  then show ?case by simp
next
  case (Cons fw fws)
  from Cons.prems obtain rd' t1 t2 where
    b: "loop_body e a l fw rd = (Inr rd', t1)" and
    r: "emit_loop e a l fws rd' = (Inr r, t2)" and
    t: "t = t1 @ t2"
    by (auto simp: then_run_Inr)
  show ?case
  proof (cases "fws = []")
    case True
    with r have "rd' = r" "t2 = []" by simp_all
    with b t show ?thesis
      by (intro exI[of _ rd] exI[of _ "[]"] exI[of _ t1]) (simp add: True)
  next
    case False
    from Cons.IH[OF r False] obtain rd'' u1 u2 where
      "t2 = u1 @ u2" "loop_body e a l (last fws) rd'' = (Inr r, u2)" by blast
    with t False show ?thesis
      by (intro exI[of _ rd''] exI[of _ "t1 @ u1"] exI[of _ u2]) simp
  qed
qed

lemma decode_lines_ok: "decode_lines acc ls = Inr r \<Longrightarrow> r = acc @ ls"
proof (induction ls arbitrary: acc)
  case Nil
  then show ?case by simp
next
  case (Cons x ls)
  from Cons.prems have "decode_lines (acc @ [x]) ls = Inr r"
    by (simp add: decode_utf8_def split: if_splits)
  from Cons.IH[OF this] show ?case by simp
qed

lemma init_tools_ok:
  assumes "init_tools e arch v ts vb = (Inr u, t)"
  shows "\<exists>chans. fst (get_channels e ts) = Inr chans \<and>
           t = [LogInfo ''Installing tools.'', Install arch chans v vb]"
proof -
  from assms obtain chans t1 where
    c: "get_channels e ts = (Inr chans, t1)" and
    t: "t = LogInfo ''Installing tools.'' # t1 @ [Install arch chans v vb]"
    by (auto simp: init_tools_def then_run_Inr)
  from c get_channels_no_events[of e ts] have "t1 = []" by simp
  with c t show ?thesis by simp
qed

text \<open>A run that ends well: what the collaborators answered, and the effects in order.\<close>

lemma main_ok:
  assumes "main e a = (Inr u, t)"
  shows "\<exists>tfms chans ow rp out rd tl.
     (commit_sha a = None) = (repository a = None) \<and>
     get_target_framework_monikers e (frameworks a) = Inr tfms \<and>
     fst (get_channels e tfms) = Inr chans \<and>
     check_output e (get_repo_root_path e) [''git'', ''rev-parse'', ''HEAD''] = Inr out \<and>
     decode_lines [] (splitlines out) = Inr (splitlines out) \<and>
     (case repository a of
        None \<Rightarrow> ow = ''dotnet'' \<and> rp = ''core-sdk''
      | Some r \<Rightarrow> get_repository e (replace_char CHR ''-'' CHR ''/'' r) = Inr (ow, rp)) \<and>
     emit_loop e a
       \<lparr>owner = ow, repo = rp,
        config_string = config_string_of (platform e) (build_configs a),
        perfHash = (if get_perf_hash a then concat (splitlines out) else perf_hash a),
        repo_url = map_option (replace_char CHR ''-'' CHR ''/'') (repository a)\<rparr>
       tfms False = (Inr rd, tl) \<and>
     t = [LogInfo ''Installing tools.'',
          Install (if architecture a = ''arm64'' then ''x64'' else architecture a)
            chans (dotnet_versions a) (\<not> quiet a),
          Info (\<not> quiet a)] @
         (case repository a of
            None \<Rightarrow> []
          | Some r \<Rightarrow> [GetRepository (replace_char CHR ''-'' CHR ''/'' r)]) @
         [CheckOutput (get_repo_root_path e) [''git'', ''rev-parse'', ''HEAD'']] @ tl @
         (if platform e \<noteq> ''win32'' \<and> rd
          then [RemoveDotnet (if architecture a = ''arm64'' then ''x64'' else architecture a)]
          else [])"
proof -
  have valid: "(commit_sha a = None) = (repository a = None)"
  proof (rule ccontr)
    assume inv: "\<not> ((commit_sha a = None) = (repository a = None))"
    have "main e a = throw (ValueError
        ''Either both commit_sha and repository should be set or neither'')"
      unfolding main_def Let_def if_P[OF inv] by (rule refl)
    with assms show False by simp
  qed
  then have nn: "\<not> \<not> ((commit_sha a = None) = (repository a = None))" by simp
  let ?arch = "if architecture a = ''arm64'' then ''x64'' else architecture a"
  let ?url = "map_option (replace_char CHR ''-'' CHR ''/'') (repository a)"
  from assms obtain tfms ti ow rp tr out dls rd tl tc where
    f1: "get_target_framework_monikers e (frameworks a) = Inr tfms" and
    f2: "init_tools e ?arch (dotnet_versions a) tfms (\<not> quiet a) = (Inr (), ti)" and
    f3: "dotnet_info e (\<not> quiet a) = Inr ()" and
    f4: "(case ?url of
            None \<Rightarrow> ret (''dotnet'', ''core-sdk'')
          | Some u \<Rightarrow> call (GetRepository u) (get_repository e u)) = (Inr (ow, rp), tr)" and
    f5: "check_output e (get_repo_root_path e) [''git'', ''rev-parse'', ''HEAD''] = Inr out" and
    f6: "decode_lines [] (splitlines out) = Inr dls" and
    f7: "emit_loop e a
       \<lparr>owner = ow, repo = rp,
        config_string = config_string_of (platform e) (build_configs a),
        perfHash = (if get_perf_hash a then concat dls else perf_hash a),
        repo_url = ?url\<rparr> tfms False = (Inr rd, tl)" and
    f8: "(if platform e \<noteq> ''win32'' \<and> rd
          then call (RemoveDotnet ?arch) (remove_dotnet e ?arch) else ret ()) = (Inr u, tc)" and
    f9: "t = ti @ Info (\<not> quiet a) # tr @
           CheckOutput (get_repo_root_path e) [''git'', ''rev-parse'', ''HEAD''] # tl @ tc"
    unfolding main_def Let_def if_not_P[OF nn]
    by (simp add: then_run_Inr split_paired_Ex split_paired_all) blast
  from init_tools_ok[OF f2] obtain chans where
    c: "fst (get_channels e tfms) = Inr chans" and
    ti: "ti = [LogInfo ''Installing tools.'', Install ?arch chans (dotnet_versions a) (\<not> quiet a)]"
    by blast
  from decode_lines_ok[OF f6] have dls: "dls = splitlines out" by simp
  from f4 have g4: "(case repository a of
        None \<Rightarrow> ow = ''dotnet'' \<and> rp = ''core-sdk''
      | Some r \<Rightarrow> get_repository e (replace_char CHR ''-'' CHR ''/'' r) = Inr (ow, rp))"
    and tr: "tr = (case repository a of
            None \<Rightarrow> []
          | Some r \<Rightarrow> [GetRepository (replace_char CHR ''-'' CHR ''/'' r)])"
    by (auto split: option.splits)
  from f8 have tc: "tc = (if platform e \<noteq> ''win32'' \<and> rd then [RemoveDotnet ?arch] else [])"
    by (auto split: if_splits)
  show ?thesis
    apply (rule exI[of _ tfms], rule exI[of _ chans], rule exI[of _ ow], rule exI[of _ rp])
    apply (rule exI[of _ out], rule exI[of _ rd], rule exI[of _ tl])
    using valid f1 c f5 f6 g4 f7 unfolding f9 ti tr tc dls by simp
qed

lemma loop_body_replay_other:
  assumes "\<not> startswith fw ''netcoreapp''" "loop_body e a l fw rd = (Inr r, t)"
  shows "replay t fs (output_file a) = Some (script_other (platform e) fw)"
  using loop_body_noncore_ok[OF assms]
  by (simp add: script_other_def)

lemma loop_body_replay_core:
  assumes "startswith fw ''netcoreapp''" "loop_body e a l fw rd = (Inr r, t)"
  shows "\<exists>br sha ts ver.
     (case commit_sha a of None \<Rightarrow> True | Some s \<Rightarrow> sha = s) \<and>
     (\<forall>fs. replay t fs (output_file a) = Some (script_core (platform e) a l br sha ts ver fw))"
proof -
  from loop_body_core_ok[OF assms] obtain tfm ver sha ts br where
    s: "(case commit_sha a of
          None \<Rightarrow> get_dotnet_sdk e tfm (cli a) = Inr sha
        | Some s \<Rightarrow> sha = s)" and
    t: "t = (GetDotnetVersion tfm (cli a) #
         (case commit_sha a of None \<Rightarrow> [GetDotnetSdk tfm (cli a)] | Some s \<Rightarrow> []) @
         [GetCommitDate tfm sha (repo_url l),
          LogInfo (''Writing script to '' @ output_file a)]) @
         OpenWrite (output_file a) # map (FileWrite (output_file a))
           (script_core (platform e) a l br sha ts ver fw)"
    unfolding script_core_def by auto
  have pre: "\<And>fs. replay (GetDotnetVersion tfm (cli a) #
         (case commit_sha a of None \<Rightarrow> [GetDotnetSdk tfm (cli a)] | Some s \<Rightarrow> []) @
         [GetCommitDate tfm sha (repo_url l),
          LogInfo (''Writing script to '' @ output_file a)]) fs = fs"
    by (simp split: option.splits)
  have "\<And>fs. replay t fs (output_file a) =
      Some (script_core (platform e) a l br sha ts ver fw)"
    unfolding t replay_append pre replay_open_writes by simp
  moreover from s have "(case commit_sha a of None \<Rightarrow> True | Some s \<Rightarrow> sha = s)"
    by (simp split: option.splits)
  ultimately show ?thesis by blast
qed

text \<open>The file a successful run leaves at \<^verbatim>\<open>output_file\<close>: the script of the last moniker.\<close>

lemma main_replay:
  assumes "main e a = (Inr u, t)"
    and "get_target_framework_monikers e (frameworks a) = Inr tfms" and "tfms \<noteq> []"
  shows "\<exists>ow rp out rd r t2.
     check_output e (get_repo_root_path e) [''git'', ''rev-parse'', ''HEAD''] = Inr out \<and>
     decode_lines [] (splitlines out) = Inr (splitlines out) \<and>
     (case repository a of
        None \<Rightarrow> ow = ''dotnet'' \<and> rp = ''core-sdk''
      | Some r \<Rightarrow> get_repository e (replace_char CHR ''-'' CHR ''/'' r) = Inr (ow, rp)) \<and>
     loop_body e a
       \<lparr>owner = ow, repo = rp,
        config_string = config_string_of (platform e) (build_configs a),
        perfHash = (if get_perf_hash a then concat (splitlines out) else perf_hash a),
        repo_url = map_option (replace_char CHR ''-'' CHR ''/'') (repository a)\<rparr>
       (last tfms) rd = (Inr r, t2) \<and>
     (\<forall>fs. \<exists>fs'. replay t fs = replay t2 fs')"
proof -
  from main_ok[OF assms(1)] assms(2) obtain chans ow rp out rd tl where
    f5: "check_output e (get_repo_root_path e) [''git'', ''rev-parse'', ''HEAD''] = Inr out" and
    f6: "decode_lines [] (splitlines out) = Inr (splitlines out)" and
    g4: "(case repository a of
        None \<Rightarrow> ow = ''dotnet'' \<and> rp = ''core-sdk''
      | Some r \<Rightarrow> get_repository e (replace_char CHR ''-'' CHR ''/'' r) = Inr (ow, rp))" and
    f7: "emit_loop e a
       \<lparr>owner = ow, repo = rp,
        config_string = config_string_of (platform e) (build_configs a),
        perfHash = (if get_perf_hash a then concat (splitlines out) else perf_hash a),
        repo_url = map_option (replace_char CHR ''-'' CHR ''/'') (repository a)\<rparr>
       tfms False = (Inr rd, tl)" and
    t: "t = ([LogInfo ''Installing tools.'',
          Install (if architecture a = ''arm64'' then ''x64'' else architecture a)
            chans (dotnet_versions a) (\<not> quiet a),
          Info (\<not> quiet a)] @
         (case repository a of
            None \<Rightarrow> []
          | Some r \<Rightarrow> [GetRepository (replace_char CHR ''-'' CHR ''/'' r)]) @
         [CheckOutput (get_repo_root_path e) [''git'', ''rev-parse'', ''HEAD'']]) @ tl @
         (if platform e \<noteq> ''win32'' \<and> rd
          then [RemoveDotnet (if architecture a = ''arm64'' then ''x64'' else architecture a)]
          else [])"
    by auto
  from emit_loop_last[OF f7 assms(3)] obtain rd' t1 t2 where
    tl: "tl = t1 @ t2" and
    b: "loop_body e a
       \<lparr>owner = ow, repo = rp,
        config_string = config_string_of (platform e) (build_configs a),
        perfHash = (if get_perf_hash a then concat (splitlines out) else perf_hash a),
        repo_url = map_option (replace_char CHR ''-'' CHR ''/'') (repository a)\<rparr>
       (last tfms) rd' = (Inr rd, t2)"
    by blast
  have post: "\<And>fs. replay (if platform e \<noteq> ''win32'' \<and> rd
          then [RemoveDotnet (if architecture a = ''arm64'' then ''x64'' else architecture a)]
          else []) fs = fs"
    by simp
  have "\<forall>fs. \<exists>fs'. replay t fs = replay t2 fs'"
    unfolding t tl replay_append post by blast
  with f5 f6 g4 b show ?thesis by blast
qed

section \<open>The effects any run can have\<close>

text \<open>
  A property of events holds for every effect of a run, whether the run ends well or
  not, once it holds for each event the script can produce.
\<close>

lemma then_run_all:
  assumes "\<forall>ev \<in> set (snd m). P ev"
    and "\<And>x. fst m = Inr x \<Longrightarrow> \<forall>ev \<in> set (snd (f x)). P ev"
  shows "\<forall>ev \<in> set (snd (then_run m f)). P ev"
  using assms by (auto simp: snd_then_run split: sum.splits)

lemma option_case_all:
  assumes "opt = None \<Longrightarrow> \<forall>ev \<in> set (snd n). P ev"
    and "\<And>x. opt = Some x \<Longrightarrow> \<forall>ev \<in> set (snd (s x)). P ev"
  shows "\<forall>ev \<in> set (snd (case opt of None \<Rightarrow> n | Some x \<Rightarrow> s x)). P ev"
  using assms by (cases opt) simp_all

lemma if_all:
  assumes "c \<Longrightarrow> \<forall>ev \<in> set (snd m). P ev" and "\<not> c \<Longrightarrow> \<forall>ev \<in> set (snd n). P ev"
  shows "\<forall>ev \<in> set (snd (if c then m else n)). P ev"
  using assms by simp

lemma silent_all:
  "\<forall>ev \<in> set (snd (ret x)). P ev"
  "\<forall>ev \<in> set (snd (throw err)). P ev"
  "\<forall>ev \<in> set (snd (lookup r)). P ev"
  "\<forall>ev \<in> set (snd (lift r')). P ev"
  by (simp_all add: ret_def throw_def lookup_def lift_def)

lemma call_all: "P ev0 \<Longrightarrow> \<forall>ev \<in> set (snd (call ev0 r)). P ev"
  by (simp add: call_def)

lemma emit_all: "P ev0 \<Longrightarrow> \<forall>ev \<in> set (snd (emit ev0)). P ev"
  by (simp add: emit_def)

lemma open_write_all: "P (OpenWrite p) \<Longrightarrow> \<forall>ev \<in> set (snd (open_write e p)). P ev"
  by (simp add: open_write_def emit_def throw_def split: sum.splits)

lemma write_all_all:
  "(\<And>c. c \<in> set cs \<Longrightarrow> P (FileWrite p c)) \<Longrightarrow> \<forall>ev \<in> set (snd (write_all p cs)). P ev"
  by (auto simp: write_all_eq)

lemma fst_call_Inr: "fst (call ev r) = Inr x \<Longrightarrow> r = Inr x"
  by (simp add: call_def raised_def split: sum.splits)

lemma fst_lookup_Inr: "fst (lookup r) = Inr x \<Longrightarrow> r = Inr x"
  by (simp add: lookup_def raised_def split: sum.splits)

lemma loop_body_all:
  assumes v: "\<And>tfm. P (GetDotnetVersion tfm (cli a))"
    and s: "\<And>tfm. commit_sha a = None \<Longrightarrow> P (GetDotnetSdk tfm (cli a))"
    and d: "\<And>tfm sha. (case commit_sha a of None \<Rightarrow> True | Some s \<Rightarrow> sha = s) \<Longrightarrow>
              P (GetCommitDate tfm sha (repo_url l))"
    and g: "P (LogInfo (''Writing script to '' @ output_file a))"
    and w: "P (OpenWrite (output_file a))"
    and c: "\<And>br sha ts ver c. startswith fw ''netcoreapp'' \<Longrightarrow>
              (case commit_sha a of None \<Rightarrow> True | Some s \<Rightarrow> sha = s) \<Longrightarrow>
              c \<in> set (script_core (platform e) a l br sha ts ver fw) \<Longrightarrow>
              P (FileWrite (output_file a) c)"
    and n: "\<And>c. \<not> startswith fw ''netcoreapp'' \<Longrightarrow>
              c \<in> set (script_other (platform e) fw) \<Longrightarrow> P (FileWrite (output_file a) c)"
  shows "\<forall>ev \<in> set (snd (loop_body e a l fw rd)). P ev"
proof (cases "startswith fw ''netcoreapp''")
  case False
  have "\<And>c. c \<in> set [variable_format (platform e) ''PERFLAB_INLAB'' ''0'',
           variable_format (platform e) ''PERFLAB_TARGET_FRAMEWORKS'' fw] \<Longrightarrow>
         P (FileWrite (output_file a) c)"
    using n[OF False] unfolding script_other_def .
  then show ?thesis
    unfolding loop_body_def Let_def if_not_P[OF False]
    by (intro then_run_all silent_all open_write_all write_all_all w)
next
  case True
  have sha_ok: "(case commit_sha a of None \<Rightarrow> True | Some s \<Rightarrow> sha = s)"
    if "fst (case commit_sha a of
               None \<Rightarrow> call (GetDotnetSdk tfm (cli a)) (get_dotnet_sdk e tfm (cli a))
             | Some sha \<Rightarrow> ret sha) = Inr sha" for sha tfm
    using that by (simp add: ret_def split: option.splits)
  have writes: "P (FileWrite (output_file a) c)"
    if "(case commit_sha a of None \<Rightarrow> True | Some s \<Rightarrow> sha = s)"
      and "c \<in> set [variable_format (platform e) ''PERFLAB_INLAB'' ''1'',
            variable_format (platform e) ''PERFLAB_REPO'' (str_join ''/'' [owner l, repo l]),
            variable_format (platform e) ''PERFLAB_BRANCH'' br,
            variable_format (platform e) ''PERFLAB_PERFHASH'' (perfHash l),
            variable_format (platform e) ''PERFLAB_HASH'' sha,
            variable_format (platform e) ''PERFLAB_QUEUE'' (queue a),
            variable_format (platform e) ''PERFLAB_BUILDNUM'' (build_number a),
            variable_format (platform e) ''PERFLAB_BUILDARCH'' (architecture a),
            variable_format (platform e) ''PERFLAB_LOCALE'' (locale_arg a),
            variable_format (platform e) ''PERFLAB_BUILDTIMESTAMP'' ts,
            variable_format (platform e) ''PERFLAB_CONFIGS'' (config_string l),
            variable_format (platform e) ''DOTNET_VERSION'' ver,
            variable_format (platform e) ''PERFLAB_TARGET_FRAMEWORKS'' fw]"
    for br sha ts ver c
    using c[OF True that(1), of c br ts ver] that(2) unfolding script_core_def by simp
  show ?thesis
    unfolding loop_body_def Let_def if_P[OF True]
    apply (intro then_run_all silent_all call_all emit_all open_write_all write_all_all
        option_case_all if_all v g w)
      apply (erule s)
     apply (rule d, erule sha_ok)
    apply (erule writes[rotated], erule sha_ok)
    done
qed

lemma emit_loop_all:
  assumes v: "\<And>tfm. P (GetDotnetVersion tfm (cli a))"
    and s: "\<And>tfm. commit_sha a = None \<Longrightarrow> P (GetDotnetSdk tfm (cli a))"
    and d: "\<And>tfm sha. (case commit_sha a of None \<Rightarrow> True | Some s \<Rightarrow> sha = s) \<Longrightarrow>
              P (GetCommitDate tfm sha (repo_url l))"
    and g: "P (LogInfo (''Writing script to '' @ output_file a))"
    and w: "P (OpenWrite (output_file a))"
    and c: "\<And>fw br sha ts ver c. fw \<in> set fws \<Longrightarrow> startswith fw ''netcoreapp'' \<Longrightarrow>
              (case commit_sha a of None \<Rightarrow> True | Some s \<Rightarrow> sha = s) \<Longrightarrow>
              c \<in> set (script_core (platform e) a l br sha ts ver fw) \<Longrightarrow>
              P (FileWrite (output_file a) c)"
    and n: "\<And>fw c. fw \<in> set fws \<Longrightarrow> \<not> startswith fw ''netcoreapp'' \<Longrightarrow>
              c \<in> set (script_other (platform e) fw) \<Longrightarrow> P (FileWrite (output_file a) c)"
  shows "\<forall>ev \<in> set (snd (emit_loop e a l fws rd)). P ev"
  using c n
proof (induction fws arbitrary: rd)
  case Nil
  show ?case by (simp add: ret_def)
next
  case (Cons fw fws)
  have body: "\<forall>ev \<in> set (snd (loop_body e a l fw rd)). P ev"
    apply (rule loop_body_all[where P = P])
          apply (rule v)
         apply (erule s)
        apply (erule d)
       apply (rule g)
      apply (rule w)
     apply (rule Cons.prems(1)[of fw]; simp)
    apply (rule Cons.prems(2)[of fw]; simp)
    done
  have rest: "\<forall>ev \<in> set (snd (emit_loop e a l fws rd')). P ev" for rd'
    apply (rule Cons.IH)
     apply (rule Cons.prems(1); simp)
    apply (rule Cons.prems(2); simp)
    done
  show ?case
    unfolding emit_loop.simps by (intro then_run_all body rest)
qed

lemma fst_emit_loop_flag:
  assumes "fst (emit_loop e a l fws rd) = Inr r"
  shows "r = (rd \<or> ''netcoreapp3.0'' \<in> set fws \<or> ''netcoreapp5.0'' \<in> set fws)"
proof -
  obtain t where "emit_loop e a l fws rd = (Inr r, t)"
    using assms by (cases "emit_loop e a l fws rd") simp
  then show ?thesis by (rule emit_loop_flag)
qed

lemma main_all:
  fixes e :: "('f, 'v, 'c) env" and a :: "('f, 'v, 'c) args"
  defines "arch \<equiv> (if architecture a = ''arm64'' then ''x64'' else architecture a)"
    and "url \<equiv> map_option (replace_char CHR ''-'' CHR ''/'') (repository a)"
  assumes i1: "P (LogInfo ''Installing tools.'')"
    and i2: "\<And>chans. P (Install arch chans (dotnet_versions a) (\<not> quiet a))"
    and i3: "P (Info (\<not> quiet a))"
    and i4: "\<And>r. repository a = Some r \<Longrightarrow> P (GetRepository (replace_char CHR ''-'' CHR ''/'' r))"
    and i5: "P (CheckOutput (get_repo_root_path e) [''git'', ''rev-parse'', ''HEAD''])"
    and i6: "\<And>tfms. get_target_framework_monikers e (frameworks a) = Inr tfms \<Longrightarrow>
               platform e \<noteq> ''win32'' \<Longrightarrow>
               ''netcoreapp3.0'' \<in> set tfms \<or> ''netcoreapp5.0'' \<in> set tfms \<Longrightarrow>
               P (RemoveDotnet arch)"
    and v: "\<And>tfm. P (GetDotnetVersion tfm (cli a))"
    and s: "\<And>tfm. commit_sha a = None \<Longrightarrow> P (GetDotnetSdk tfm (cli a))"
    and d: "\<And>tfm sha. (case commit_sha a of None \<Rightarrow> True | Some s \<Rightarrow> sha = s) \<Longrightarrow>
              P (GetCommitDate tfm sha url)"
    and g: "P (LogInfo (''Writing script to '' @ output_file a))"
    and w: "P (OpenWrite (output_file a))"
    and c: "\<And>tfms ow rp out fw br sha ts ver c.
              get_target_framework_monikers e (frameworks a) = Inr tfms \<Longrightarrow> fw \<in> set tfms \<Longrightarrow>
              check_output e (get_repo_root_path e) [''git'', ''rev-parse'', ''HEAD''] = Inr out \<Longrightarrow>
              startswith fw ''netcoreapp'' \<Longrightarrow>
              (case commit_sha a of None \<Rightarrow> True | Some s \<Rightarrow> sha = s) \<Longrightarrow>
              c \<in> set (script_core (platform e) a
                   \<lparr>owner = ow, repo = rp,
                    config_string = config_string_of (platform e) (build_configs a),
                    perfHash = (if get_perf_hash a then concat (splitlines out) else perf_hash a),
                    repo_url = url\<rparr> br sha ts ver fw) \<Longrightarrow>
              P (FileWrite (output_file a) c)"
    and n: "\<And>tfms fw c. get_target_framework_monikers e (frameworks a) = Inr tfms \<Longrightarrow>
              fw \<in> set tfms \<Longrightarrow> \<not> startswith fw ''netcoreapp'' \<Longrightarrow>
              c \<in> set (script_other (platform e) fw) \<Longrightarrow> P (FileWrite (output_file a) c)"
  shows "\<forall>ev \<in> set (snd (main e a)). P ev"
proof (cases "(commit_sha a = None) = (repository a = None)")
  case False
  then show ?thesis
    unfolding main_def Let_def if_P[OF False] by (simp add: throw_def)
next
  case True
  then have nn: "\<not> \<not> ((commit_sha a = None) = (repository a = None))" by simp
  have init: "\<forall>ev \<in> set (snd (init_tools e arch (dotnet_versions a) tfms (\<not> quiet a))). P ev"
    for tfms
    unfolding init_tools_def
    apply (intro then_run_all emit_all call_all i1 i2)
    using get_channels_no_events[of e tfms] by simp
  have repo: "\<forall>ev \<in> set (snd (case url of
                    None \<Rightarrow> ret (''dotnet'', ''core-sdk'')
                  | Some u \<Rightarrow> call (GetRepository u) (get_repository e u))). P ev"
    unfolding url_def
    by (cases "repository a") (auto simp: ret_def call_def intro: i4)
  have loop: "\<forall>ev \<in> set (snd (emit_loop e a
        \<lparr>owner = ow, repo = rp,
         config_string = config_string_of (platform e) (build_configs a),
         perfHash = (if get_perf_hash a then concat dls else perf_hash a),
         repo_url = url\<rparr> tfms False)). P ev"
    if "get_target_framework_monikers e (frameworks a) = Inr tfms"
      and "check_output e (get_repo_root_path e) [''git'', ''rev-parse'', ''HEAD''] = Inr out"
      and "decode_lines [] (splitlines out) = Inr dls"
    for tfms ow rp out dls
  proof -
    from decode_lines_ok[OF that(3)] have dls: "dls = splitlines out" by simp
    show ?thesis
      unfolding dls
      apply (rule emit_loop_all[where P = P])
            apply (rule v)
           apply (erule s)
          apply (simp, erule d)
         apply (rule g)
        apply (rule w)
       apply (erule (3) c[OF that(1) _ that(2)])
      apply (erule (2) n[OF that(1)])
      done
  qed
  have fin: "\<forall>ev \<in> set (snd (if platform e \<noteq> ''win32'' \<and> rd
                 then call (RemoveDotnet arch) (remove_dotnet e arch)
                 else ret ())). P ev"
    if "get_target_framework_monikers e (frameworks a) = Inr tfms"
      and "fst (emit_loop e a l tfms False) = Inr rd"
    for tfms l rd
    using fst_emit_loop_flag[OF that(2)] i6[OF that(1)]
    by (auto simp: call_def ret_def)
  show ?thesis
    unfolding main_def Let_def if_not_P[OF nn] case_prod_beta
      arch_def[symmetric] url_def[symmetric]
    apply (intro then_run_all silent_all call_all init repo i3 i5)
     apply (rule loop)
       apply (erule fst_lookup_Inr)
      apply (erule fst_call_Inr)
     apply (simp add: lift_def)
    apply (rule fin)
     apply (erule fst_lookup_Inr)
    apply assumption
    done
qed

section \<open>Reading an assignment back\<close>

lemma variable_format_value: "variable_format plat n v = variable_format plat n v' \<longleftrightarrow> v = v'"
  by (simp add: variable_format_def)

lemma name_before_equals:
  assumes "n @ CHR ''='' # r = n' @ CHR ''='' # r'"
    and "CHR ''='' \<notin> set n" and "CHR ''='' \<notin> set n'"
  shows "n = n' \<and> r = r'"
proof -
  have tw: "CHR ''='' \<notin> set xs \<Longrightarrow>
      takeWhile (\<lambda>c. c \<noteq> CHR ''='') (xs @ CHR ''='' # ys) = xs" for xs ys
    by (induction xs) auto
  have "takeWhile (\<lambda>c. c \<noteq> CHR ''='') (n @ CHR ''='' # r) = n"
    using assms(2) by (rule tw)
  moreover have "takeWhile (\<lambda>c. c \<noteq> CHR ''='') (n' @ CHR ''='' # r') = n'"
    using assms(3) by (rule tw)
  ultimately have "n = n'" using assms(1) by simp
  with assms(1) show ?thesis by simp
qed

lemma variable_format_name:
  assumes "variable_format plat n v = variable_format plat n' v'"
    and "CHR ''='' \<notin> set n" and "CHR ''='' \<notin> set n'"
  shows "n = n' \<and> v = v'"
proof -
  from assms(1) have "n @ CHR ''='' # (v @ [CHR 0x0A]) = n' @ CHR ''='' # (v' @ [CHR 0x0A])"
    by (simp add: variable_format_def split: if_splits)
  from name_before_equals[OF this assms(2,3)] show ?thesis by simp
qed

text \<open>The assignments of the two scripts, by name.\<close>

lemma script_core_map:
  "script_core plat a l br sha ts ver fw = map (\<lambda>(n, v). variable_format plat n v)
     [(''PERFLAB_INLAB'', ''1''),
      (''PERFLAB_REPO'', owner l @ ''/'' @ repo l),
      (''PERFLAB_BRANCH'', br),
      (''PERFLAB_PERFHASH'', perfHash l),
      (''PERFLAB_HASH'', sha),
      (''PERFLAB_QUEUE'', queue a),
      (''PERFLAB_BUILDNUM'', build_number a),
      (''PERFLAB_BUILDARCH'', architecture a),
      (''PERFLAB_LOCALE'', locale_arg a),
      (''PERFLAB_BUILDTIMESTAMP'', ts),
      (''PERFLAB_CONFIGS'', config_string l),
      (''DOTNET_VERSION'', ver),
      (''PERFLAB_TARGET_FRAMEWORKS'', fw)]"
  by (simp add: script_core_def)

lemma script_core_assignment:
  assumes "c \<in> set (script_core plat a l br sha ts ver fw)"
  shows "\<exists>n v. c = variable_format plat n v \<and> (n, v) \<in> set
     [(''PERFLAB_INLAB'', ''1''),
      (''PERFLAB_REPO'', owner l @ ''/'' @ repo l),
      (''PERFLAB_BRANCH'', br),
      (''PERFLAB_PERFHASH'', perfHash l),
      (''PERFLAB_HASH'', sha),
      (''PERFLAB_QUEUE'', queue a),
      (''PERFLAB_BUILDNUM'', build_number a),
      (''PERFLAB_BUILDARCH'', architecture a),
      (''PERFLAB_LOCALE'', locale_arg a),
      (''PERFLAB_BUILDTIMESTAMP'', ts),
      (''PERFLAB_CONFIGS'', config_string l),
      (''DOTNET_VERSION'', ver),
      (''PERFLAB_TARGET_FRAMEWORKS'', fw)]"
proof -
  from assms have "c \<in> (\<lambda>(n, v). variable_format plat n v) ` set
     [(''PERFLAB_INLAB'', ''1''),
      (''PERFLAB_REPO'', owner l @ ''/'' @ repo l),
      (''PERFLAB_BRANCH'', br),
      (''PERFLAB_PERFHASH'', perfHash l),
      (''PERFLAB_HASH'', sha),
      (''PERFLAB_QUEUE'', queue a),
      (''PERFLAB_BUILDNUM'', build_number a),
      (''PERFLAB_BUILDARCH'', architecture a),
      (''PERFLAB_LOCALE'', locale_arg a),
      (''PERFLAB_BUILDTIMESTAMP'', ts),
      (''PERFLAB_CONFIGS'', config_string l),
      (''DOTNET_VERSION'', ver),
      (''PERFLAB_TARGET_FRAMEWORKS'', fw)]"
    unfolding script_core_map set_map .
  then obtain nv where c: "c = (\<lambda>(n, v). variable_format plat n v) nv"
    and m: "nv \<in> set
     [(''PERFLAB_INLAB'', ''1''),
      (''PERFLAB_REPO'', owner l @ ''/'' @ repo l),
      (''PERFLAB_BRANCH'', br),
      (''PERFLAB_PERFHASH'', perfHash l),
      (''PERFLAB_HASH'', sha),
      (''PERFLAB_QUEUE'', queue a),
      (''PERFLAB_BUILDNUM'', build_number a),
      (''PERFLAB_BUILDARCH'', architecture a),
      (''PERFLAB_LOCALE'', locale_arg a),
      (''PERFLAB_BUILDTIMESTAMP'', ts),
      (''PERFLAB_CONFIGS'', config_string l),
      (''DOTNET_VERSION'', ver),
      (''PERFLAB_TARGET_FRAMEWORKS'', fw)]"
    by (rule imageE)
  obtain n v where nv: "nv = (n, v)" by (cases nv)
  from c have "c = variable_format plat n v" unfolding nv by (simp only: prod.case)
  with m[unfolded nv] show ?thesis by (intro exI[of _ n] exI[of _ v] conjI)
qed

lemma script_other_assignment:
  assumes "c \<in> set (script_other plat fw)"
  shows "\<exists>n v. c = variable_format plat n v \<and> (n, v) \<in> set
     [(''PERFLAB_INLAB'', ''0''), (''PERFLAB_TARGET_FRAMEWORKS'', fw)]"
  using assms unfolding script_other_def by auto

lemma replay_contents:
  "replay t fs p = Some cs \<Longrightarrow> c \<in> set cs \<Longrightarrow>
   FileWrite p c \<in> set t \<or> (\<exists>ds. fs p = Some ds \<and> c \<in> set ds)"
proof (induction t arbitrary: fs)
  case Nil
  then show ?case by simp
next
  case (Cons ev es)
  show ?case
  proof (cases ev)
    case (OpenWrite q)
    with Cons.prems have "replay es (fs(q \<mapsto> [])) p = Some cs" by simp
    from Cons.IH[OF this Cons.prems(2)] show ?thesis
      by (auto split: if_splits)
  next
    case (FileWrite q d)
    with Cons.prems have
      "replay es (fs(q \<mapsto> (case fs q of None \<Rightarrow> [] | Some cs \<Rightarrow> cs) @ [d])) p = Some cs"
      by simp
    from Cons.IH[OF this Cons.prems(2)] show ?thesis
      using FileWrite by (auto split: if_splits option.splits)
  qed (use Cons in auto)
qed

end
